theory Spec2Isabelle
  imports Complex_Main
begin

section \<open>Data model of server.js\<close>

text \<open>
  The users file \<^verbatim>\<open>data/users.csv\<close> has the columns name, email, password, role.
  \<^verbatim>\<open>readCSV\<close> parses it with a header row, so every row is an object with these
  four string fields; the file is modelled by the list of rows \<^verbatim>\<open>readCSV\<close> returns
  (a missing file reads as the empty list) and \<^verbatim>\<open>writeCSV\<close> replaces that list.
\<close>

record user =
  name :: string
  email :: string
  password :: string
  role :: string

text \<open>The object stored in \<^verbatim>\<open>req.session.user\<close> at login.\<close>

record suser =
  sname :: string
  semail :: string
  srole :: string

text \<open>
  The fields the handlers read from \<^verbatim>\<open>req.body\<close>. A field is a string or absent
  (\<^verbatim>\<open>undefined\<close>), which is what the clients of this repository send.
\<close>

record body =
  b_name :: "string option"
  b_email :: "string option"
  b_password :: "string option"
  b_role :: "string option"

text \<open>
  A JavaScript number: not-a-number, an infinity (\<open>True\<close> for the negative one) or a
  finite number, which is represented by its mathematical value (the rounding of a decimal
  literal to the nearest double is not modelled).
\<close>

datatype number = NaN | Infinity bool | Fin rat

text \<open>
  The values handed to \<^verbatim>\<open>res.json\<close>. A property whose value is \<open>JUndefined\<close> is
  left out of the serialised object.
\<close>

datatype json =
    JUndefined
  | JNull
  | JBool bool
  | JNum number
  | JStr string
  | JArr "json list"
  | JObj "(string \<times> json) list"

record response =
  status :: nat
  payload :: json

text \<open>
  What the handlers cannot decide themselves: the bcrypt library (a rejected promise is
  \<open>None\<close>), whether \<^verbatim>\<open>fs.writeFile\<close> succeeds, whether \<^verbatim>\<open>session.destroy\<close> succeeds.
\<close>

record env =
  bcrypt_hash :: "string \<Rightarrow> string option"
  bcrypt_compare :: "string \<Rightarrow> string \<Rightarrow> bool option"
  write_ok :: bool
  destroy_ok :: bool

definition truthy :: "string option \<Rightarrow> bool" where
  "truthy v = (case v of None \<Rightarrow> False | Some s \<Rightarrow> s \<noteq> [])"

definition str :: "string option \<Rightarrow> string" where
  "str v = (case v of None \<Rightarrow> [] | Some s \<Rightarrow> s)"

text \<open>\<^verbatim>\<open>res.status(c).json({ error: msg })\<close> and \<^verbatim>\<open>res.json(v)\<close>.\<close>

definition fail :: "nat \<Rightarrow> string \<Rightarrow> response" where
  "fail c msg = \<lparr>status = c, payload = JObj [(''error'', JStr msg)]\<rparr>"

definition ok :: "json \<Rightarrow> response" where
  "ok v = \<lparr>status = 200, payload = v\<rparr>"

definition message :: "string \<Rightarrow> json" where
  "message msg = JObj [(''message'', JStr msg)]"

subsection \<open>POST /api/register\<close>

definition register :: "env \<Rightarrow> body \<Rightarrow> user list \<Rightarrow> response \<times> user list" where
  "register ev b us =
    (if \<not> truthy (b_name b) \<or> \<not> truthy (b_email b) \<or> \<not> truthy (b_password b)
     then (fail 400 ''All fields are required'', us)
     else if length (str (b_password b)) < 6
     then (fail 400 ''Password must be at least 6 characters'', us)
     else if list_ex (\<lambda>u. email u = str (b_email b)) us
     then (fail 400 ''Email already registered'', us)
     else (case bcrypt_hash ev (str (b_password b)) of
         None \<Rightarrow> (fail 500 ''Server error during registration'', us)
       | Some hashedPassword \<Rightarrow>
           (if write_ok ev
            then (ok (message ''Registration successful''),
                  us @ [\<lparr>name = str (b_name b), email = str (b_email b),
                          password = hashedPassword, role = ''user''\<rparr>])
            else (fail 500 ''Failed to save user'', us))))"

subsection \<open>POST /api/login\<close>

text \<open>The second component is the new value of \<^verbatim>\<open>req.session.user\<close>.\<close>

definition user_json :: "string \<Rightarrow> string \<Rightarrow> string \<Rightarrow> json" where
  "user_json n e r = JObj [(''name'', JStr n), (''email'', JStr e), (''role'', JStr r)]"

definition login :: "env \<Rightarrow> body \<Rightarrow> suser option \<Rightarrow> user list \<Rightarrow> response \<times> suser option" where
  "login ev b sess us =
    (if \<not> truthy (b_email b) \<or> \<not> truthy (b_password b)
     then (fail 400 ''Email and password are required'', sess)
     else (case find (\<lambda>u. email u = str (b_email b)) us of
         None \<Rightarrow> (fail 401 ''Invalid email or password'', sess)
       | Some u \<Rightarrow>
           (case bcrypt_compare ev (str (b_password b)) (password u) of
              None \<Rightarrow> (fail 500 ''Server error during login'', sess)
            | Some validPassword \<Rightarrow>
                (if \<not> validPassword
                 then (fail 401 ''Invalid email or password'', sess)
                 else (ok (JObj [(''message'', JStr ''Login successful''),
                                 (''user'', user_json (name u) (email u) (role u))]),
                       Some \<lparr>sname = name u, semail = email u, srole = role u\<rparr>)))))"

subsection \<open>GET /api/logout and GET /api/check-auth\<close>

definition logout :: "env \<Rightarrow> suser option \<Rightarrow> response \<times> suser option" where
  "logout ev sess =
    (if destroy_ok ev then (ok (message ''Logout successful''), None)
     else (fail 500 ''Logout failed'', sess))"

definition check_auth :: "suser option \<Rightarrow> response" where
  "check_auth sess =
    (case sess of
       Some su \<Rightarrow> ok (JObj [(''authenticated'', JBool True),
                            (''user'', user_json (sname su) (semail su) (srole su))])
     | None \<Rightarrow> ok (JObj [(''authenticated'', JBool False)]))"

subsection \<open>The middleware\<close>

text \<open>\<open>None\<close> is the call of \<^verbatim>\<open>next()\<close>; \<open>Some r\<close> is the response sent instead.\<close>

definition isAuthenticated :: "suser option \<Rightarrow> response option" where
  "isAuthenticated sess =
    (case sess of Some su \<Rightarrow> None | None \<Rightarrow> Some (fail 401 ''Not authenticated''))"

definition isAdmin :: "suser option \<Rightarrow> response option" where
  "isAdmin sess =
    (case sess of
       Some su \<Rightarrow> if srole su = ''admin'' then None
                  else Some (fail 403 ''Admin privileges required'')
     | None \<Rightarrow> Some (fail 403 ''Admin privileges required''))"

subsection \<open>The admin routes\<close>

definition get_users :: "user list \<Rightarrow> response" where
  "get_users us =
     ok (JObj [(''users'', JArr (map (\<lambda>u. user_json (name u) (email u) (role u)) us))])"

definition add_user :: "env \<Rightarrow> body \<Rightarrow> user list \<Rightarrow> response \<times> user list" where
  "add_user ev b us =
    (if \<not> truthy (b_name b) \<or> \<not> truthy (b_email b) \<or> \<not> truthy (b_password b)
     then (fail 400 ''All fields are required'', us)
     else if length (str (b_password b)) < 6
     then (fail 400 ''Password must be at least 6 characters'', us)
     else if list_ex (\<lambda>u. email u = str (b_email b)) us
     then (fail 400 ''Email already exists'', us)
     else (case bcrypt_hash ev (str (b_password b)) of
         None \<Rightarrow> (fail 500 ''Server error'', us)
       | Some hashedPassword \<Rightarrow>
           (if write_ok ev
            then (ok (message ''User added successfully''),
                  us @ [\<lparr>name = str (b_name b), email = str (b_email b),
                          password = hashedPassword,
                          role = (if truthy (b_role b) then str (b_role b) else ''user'')\<rparr>])
            else (fail 500 ''Failed to add user'', us))))"

text \<open>\<^verbatim>\<open>Array.prototype.findIndex\<close>; \<open>None\<close> is the result \<open>-1\<close>.\<close>

fun findIndex :: "('a \<Rightarrow> bool) \<Rightarrow> 'a list \<Rightarrow> nat option" where
  "findIndex P [] = None"
| "findIndex P (x # xs) =
     (if P x then Some 0 else map_option Suc (findIndex P xs))"

definition update_role :: "env \<Rightarrow> string \<Rightarrow> body \<Rightarrow> user list \<Rightarrow> response \<times> user list" where
  "update_role ev e b us =
    (if \<not> truthy (b_role b) \<or> str (b_role b) \<notin> set [''user'', ''admin'']
     then (fail 400 ''Invalid role'', us)
     else (case findIndex (\<lambda>u. email u = e) us of
         None \<Rightarrow> (fail 404 ''User not found'', us)
       | Some userIndex \<Rightarrow>
           (if write_ok ev
            then (ok (message ''User role updated successfully''),
                  us[userIndex := (us ! userIndex)\<lparr>role := str (b_role b)\<rparr>])
            else (fail 500 ''Failed to update user'', us))))"

text \<open>
  The handler reads \<^verbatim>\<open>req.session.user.email\<close>; without a session user that is a
  TypeError, which the handler's \<^verbatim>\<open>catch\<close> turns into the response 500.
\<close>

definition delete_user :: "env \<Rightarrow> suser option \<Rightarrow> string \<Rightarrow> user list \<Rightarrow> response \<times> user list" where
  "delete_user ev sess e us =
    (case sess of
       None \<Rightarrow> (fail 500 ''Server error'', us)
     | Some su \<Rightarrow>
         (if semail su = e then (fail 400 ''Cannot delete your own account'', us)
          else (let filteredUsers = filter (\<lambda>u. email u \<noteq> e) us in
            if length filteredUsers = length us then (fail 404 ''User not found'', us)
            else if write_ok ev then (ok (message ''User deleted successfully''), filteredUsers)
            else (fail 500 ''Failed to delete user'', us))))"

subsection \<open>GET /api/sensors\<close>

text \<open>
  A row of \<^verbatim>\<open>data/feeds.csv\<close>. The file is written outside the server; a row with too
  few fields lacks the later columns, so a field is a string or absent.
\<close>

record feed =
  created_at :: "string option"
  entry_id :: "string option"
  field1 :: "string option"
  field2 :: "string option"
  field3 :: "string option"

text \<open>An element of \<^verbatim>\<open>processedFeeds\<close>.\<close>

record reading =
  timestamp :: "string option"
  r_entry_id :: "string option"
  r_field1 :: number
  r_field2 :: number
  r_field3 :: number

text \<open>
  \<^verbatim>\<open>parseFloat\<close> (ECMAScript, 19.2.4): the argument is converted to a string, leading
  white space is dropped, and the longest prefix that is a \<^verbatim>\<open>StrDecimalLiteral\<close> gives
  the result; without such a prefix the result is NaN. Strings are lists of 8-bit
  characters here, so only the ASCII white space is recognised.
\<close>

definition isDigit :: "char \<Rightarrow> bool" where
  "isDigit c = (48 \<le> (of_char c :: nat) \<and> (of_char c :: nat) \<le> 57)"

definition isWhite :: "char \<Rightarrow> bool" where
  "isWhite c = ((of_char c :: nat) \<in> set [9, 10, 11, 12, 13, 32])"

definition digitsValue :: "string \<Rightarrow> nat" where
  "digitsValue ds = foldl (\<lambda>a c. 10 * a + (of_char c - 48)) 0 ds"

definition scale10 :: "rat \<Rightarrow> int \<Rightarrow> rat" where
  "scale10 m e = (if 0 \<le> e then m * 10 ^ nat e else m / 10 ^ nat (- e))"

text \<open>
  The value of the \<^verbatim>\<open>ExponentPart\<close> at the head of the string, 0 when there is none
  (an \<^verbatim>\<open>e\<close> that no digit follows is not part of the literal).
\<close>

definition exponentPart :: "string \<Rightarrow> int" where
  "exponentPart s =
    (case s of
       [] \<Rightarrow> 0
     | c # r \<Rightarrow>
         if c = CHR ''e'' \<or> c = CHR ''E'' then
           (case r of
              [] \<Rightarrow> 0
            | d # r' \<Rightarrow>
                if d = CHR ''-'' then - int (digitsValue (takeWhile isDigit r'))
                else if d = CHR ''+'' then int (digitsValue (takeWhile isDigit r'))
                else int (digitsValue (takeWhile isDigit r)))
         else 0)"

text \<open>
  The longest prefix that is a \<^verbatim>\<open>StrUnsignedDecimalLiteral\<close> other than
  \<^verbatim>\<open>Infinity\<close>: digits, an optional point and digits (a digit on one side of the
  point at least), an optional exponent.
\<close>

definition unsignedLiteral :: "string \<Rightarrow> rat option" where
  "unsignedLiteral s =
    (let ip = takeWhile isDigit s; r1 = dropWhile isDigit s in
     if r1 \<noteq> [] \<and> hd r1 = CHR ''.'' then
       (let fp = takeWhile isDigit (tl r1); r2 = dropWhile isDigit (tl r1) in
        if ip = [] \<and> fp = [] then None
        else Some (scale10 (of_nat (digitsValue (ip @ fp))) (exponentPart r2 - int (length fp))))
     else if ip = [] then None
     else Some (scale10 (of_nat (digitsValue ip)) (exponentPart r1)))"

definition unsignedNumber :: "string \<Rightarrow> number" where
  "unsignedNumber s =
    (if take 8 s = ''Infinity'' then Infinity False
     else (case unsignedLiteral s of None \<Rightarrow> NaN | Some q \<Rightarrow> Fin q))"

definition negate :: "number \<Rightarrow> number" where
  "negate n = (case n of NaN \<Rightarrow> NaN | Infinity b \<Rightarrow> Infinity (\<not> b) | Fin q \<Rightarrow> Fin (- q))"

definition parseFloat :: "string option \<Rightarrow> number" where
  "parseFloat v =
    (case v of
       None \<Rightarrow> NaN
     | Some s \<Rightarrow>
         (case dropWhile isWhite s of
            [] \<Rightarrow> NaN
          | c # r \<Rightarrow>
              if c = CHR ''-'' then negate (unsignedNumber r)
              else if c = CHR ''+'' then unsignedNumber r
              else unsignedNumber (c # r)))"

text \<open>\<^verbatim>\<open>x || 0\<close> for a number \<open>x\<close>: NaN and zero are falsy.\<close>

definition orZero :: "number \<Rightarrow> number" where
  "orZero n = (case n of NaN \<Rightarrow> Fin 0 | Infinity b \<Rightarrow> Infinity b
                | Fin q \<Rightarrow> if q = 0 then Fin 0 else Fin q)"

definition processFeed :: "feed \<Rightarrow> reading" where
  "processFeed f =
    \<lparr>timestamp = created_at f, r_entry_id = entry_id f,
     r_field1 = orZero (parseFloat (field1 f)),
     r_field2 = orZero (parseFloat (field2 f)),
     r_field3 = orZero (parseFloat (field3 f))\<rparr>"

text \<open>\<^verbatim>\<open>xs.slice(-n)\<close>: the last \<open>n\<close> elements, all of them when there are fewer.\<close>

definition slice_last :: "nat \<Rightarrow> 'a list \<Rightarrow> 'a list" where
  "slice_last n xs = drop (length xs - n) xs"

definition opt_json :: "string option \<Rightarrow> json" where
  "opt_json v = (case v of None \<Rightarrow> JUndefined | Some s \<Rightarrow> JStr s)"

definition reading_json :: "reading \<Rightarrow> json" where
  "reading_json r =
    JObj [(''timestamp'', opt_json (timestamp r)), (''entry_id'', opt_json (r_entry_id r)),
          (''field1'', JNum (r_field1 r)), (''field2'', JNum (r_field2 r)),
          (''field3'', JNum (r_field3 r))]"

definition latest_json :: "reading \<Rightarrow> json" where
  "latest_json latest =
    JObj [(''field1'', JNum (r_field1 latest)), (''field2'', JNum (r_field2 latest)),
          (''field3'', JNum (r_field3 latest)), (''timestamp'', opt_json (timestamp latest))]"

definition get_sensors :: "feed list \<Rightarrow> response" where
  "get_sensors fs =
    (if length fs = 0
     then ok (JObj [(''latest'', JObj []), (''history'', JArr []), (''recent'', JArr [])])
     else (let processedFeeds = map processFeed fs;
               latest = processedFeeds ! (length processedFeeds - 1);
               history = slice_last 20 processedFeeds;
               recent = rev (slice_last 10 processedFeeds)
           in ok (JObj [(''latest'', latest_json latest),
                        (''history'', JArr (map reading_json history)),
                        (''recent'', JArr (map reading_json recent))])))"

subsection \<open>The routes\<close>

datatype request =
    PostRegister body
  | PostLogin body
  | GetLogout
  | GetCheckAuth
  | GetSensors
  | GetUsers
  | PostUsersAdd body
  | PutUser string body
  | DeleteUser string

text \<open>
  The state of the server: the two files and the session store of express-session, which
  maps the session of a client (its cookie) to \<^verbatim>\<open>req.session.user\<close>.
\<close>

record server =
  users :: "user list"
  feeds :: "feed list"
  sessions :: "nat \<Rightarrow> suser option"

text \<open>The middleware of a route runs in order; the first response sent ends the request.\<close>

fun run_middleware :: "(suser option \<Rightarrow> response option) list \<Rightarrow> suser option \<Rightarrow> response option" where
  "run_middleware [] sess = None"
| "run_middleware (m # ms) sess =
     (case m sess of Some r \<Rightarrow> Some r | None \<Rightarrow> run_middleware ms sess)"

fun app :: "env \<Rightarrow> nat \<Rightarrow> request \<Rightarrow> server \<Rightarrow> response \<times> server" where
  "app ev c (PostRegister b) sv =
     (case register ev b (users sv) of (r, us) \<Rightarrow> (r, sv\<lparr>users := us\<rparr>))"
| "app ev c (PostLogin b) sv =
     (case login ev b (sessions sv c) (users sv) of
        (r, s) \<Rightarrow> (r, sv\<lparr>sessions := (sessions sv)(c := s)\<rparr>))"
| "app ev c GetLogout sv =
     (case logout ev (sessions sv c) of
        (r, s) \<Rightarrow> (r, sv\<lparr>sessions := (sessions sv)(c := s)\<rparr>))"
| "app ev c GetCheckAuth sv = (check_auth (sessions sv c), sv)"
| "app ev c GetSensors sv =
     (case run_middleware [isAuthenticated] (sessions sv c) of
        Some r \<Rightarrow> (r, sv)
      | None \<Rightarrow> (get_sensors (feeds sv), sv))"
| "app ev c GetUsers sv =
     (case run_middleware [isAuthenticated, isAdmin] (sessions sv c) of
        Some r \<Rightarrow> (r, sv)
      | None \<Rightarrow> (get_users (users sv), sv))"
| "app ev c (PostUsersAdd b) sv =
     (case run_middleware [isAuthenticated, isAdmin] (sessions sv c) of
        Some r \<Rightarrow> (r, sv)
      | None \<Rightarrow> (case add_user ev b (users sv) of (r, us) \<Rightarrow> (r, sv\<lparr>users := us\<rparr>)))"
| "app ev c (PutUser e b) sv =
     (case run_middleware [isAuthenticated, isAdmin] (sessions sv c) of
        Some r \<Rightarrow> (r, sv)
      | None \<Rightarrow> (case update_role ev e b (users sv) of (r, us) \<Rightarrow> (r, sv\<lparr>users := us\<rparr>)))"
| "app ev c (DeleteUser e) sv =
     (case run_middleware [isAuthenticated, isAdmin] (sessions sv c) of
        Some r \<Rightarrow> (r, sv)
      | None \<Rightarrow> (case delete_user ev (sessions sv c) e (users sv) of
                   (r, us) \<Rightarrow> (r, sv\<lparr>users := us\<rparr>)))"

subsection \<open>Start of the server\<close>

text \<open>
  The callback of \<^verbatim>\<open>app.listen\<close>: when the users file is missing or has no rows, it
  is written with the seeded administrator. A failure of bcrypt is caught and logged, and
  the result of \<^verbatim>\<open>writeCSV\<close> is ignored; both leave the store as it was.
\<close>

definition bootstrap :: "env \<Rightarrow> user list \<Rightarrow> user list" where
  "bootstrap ev us =
    (if length us = 0
     then (case bcrypt_hash ev ''admin123'' of
         None \<Rightarrow> us
       | Some hashedPassword \<Rightarrow>
           if write_ok ev
           then [\<lparr>name = ''Admin User'', email = ''admin@example.com'',
                   password = hashedPassword, role = ''admin''\<rparr>]
           else us)
     else us)"

text \<open>The routes declared with the middleware \<^verbatim>\<open>isAuthenticated, isAdmin\<close>.\<close>

fun admin_route :: "request \<Rightarrow> bool" where
  "admin_route GetUsers = True"
| "admin_route (PostUsersAdd b) = True"
| "admin_route (PutUser e b) = True"
| "admin_route (DeleteUser e) = True"
| "admin_route r = False"

subsection \<open>A concrete server for evaluating the handlers\<close>

text \<open>
  A stand-in for bcrypt that prefixes the password, the seeded administrator of the
  bootstrap code, and a session store with an administrator (client 1) and a plain user
  (client 2) logged in.
\<close>

definition demo_env :: env where
  "demo_env = \<lparr>bcrypt_hash = (\<lambda>p. Some (''$2b$10$'' @ p)),
     bcrypt_compare = (\<lambda>p h. Some (h = ''$2b$10$'' @ p)), write_ok = True, destroy_ok = True\<rparr>"

definition demo_admin :: user where
  "demo_admin = \<lparr>name = ''Admin User'', email = ''admin@example.com'',
     password = ''$2b$10$admin123'', role = ''admin''\<rparr>"

definition demo_server :: server where
  "demo_server = \<lparr>users = [demo_admin], feeds = [],
     sessions = (\<lambda>c. if c = 1 then Some \<lparr>sname = ''Admin User'', semail = ''admin@example.com'',
                                          srole = ''admin''\<rparr>
                    else if c = 2 then Some \<lparr>sname = ''Bob'', semail = ''bob@example.com'',
                                               srole = ''user''\<rparr>
                    else None)\<rparr>"

definition demo_body :: body where
  "demo_body = \<lparr>b_name = Some ''A'', b_email = Some ''a@x.com'', b_password = Some ''abcdef'',
     b_role = Some ''admin''\<rparr>"

subsection \<open>Observing responses\<close>

text \<open>The property names of a value, at any depth.\<close>

primrec json_keys :: "json \<Rightarrow> string list" where
  "json_keys JUndefined = []"
| "json_keys JNull = []"
| "json_keys (JBool b) = []"
| "json_keys (JNum n) = []"
| "json_keys (JStr s) = []"
| "json_keys (JArr xs) = concat (map json_keys xs)"
| "json_keys (JObj kvs) = concat (map (\<lambda>kv. fst kv # snd kv) (map (map_prod id json_keys) kvs))"

text \<open>The string values of a value, at any depth.\<close>

primrec json_strings :: "json \<Rightarrow> string list" where
  "json_strings JUndefined = []"
| "json_strings JNull = []"
| "json_strings (JBool b) = []"
| "json_strings (JNum n) = []"
| "json_strings (JStr s) = [s]"
| "json_strings (JArr xs) = concat (map json_strings xs)"
| "json_strings (JObj kvs) = concat (map snd (map (map_prod id json_strings) kvs))"

text \<open>Property access \<^verbatim>\<open>v[k]\<close> on a value.\<close>

definition json_get :: "string \<Rightarrow> json \<Rightarrow> json" where
  "json_get k v =
    (case v of JObj kvs \<Rightarrow> (case map_of kvs k of None \<Rightarrow> JUndefined | Some x \<Rightarrow> x)
     | _ \<Rightarrow> JUndefined)"

subsection \<open>Vocabulary of the properties\<close>

text \<open>Every property name that occurs in a response of server.js.\<close>

definition response_keys :: "string list" where
  "response_keys = [''error'', ''message'', ''user'', ''users'', ''name'', ''email'', ''role'',
     ''authenticated'', ''latest'', ''history'', ''recent'', ''timestamp'', ''entry_id'',
     ''field1'', ''field2'', ''field3'']"

text \<open>Every message string that occurs in a response of server.js.\<close>

definition server_messages :: "string list" where
  "server_messages =
    [''All fields are required'', ''Password must be at least 6 characters'',
     ''Email already registered'', ''Server error during registration'',
     ''Registration successful'', ''Failed to save user'',
     ''Email and password are required'', ''Invalid email or password'',
     ''Server error during login'', ''Login successful'', ''Logout successful'',
     ''Logout failed'', ''Not authenticated'', ''Admin privileges required'',
     ''Email already exists'', ''Server error'', ''User added successfully'',
     ''Failed to add user'', ''Invalid role'', ''User not found'',
     ''User role updated successfully'', ''Failed to update user'',
     ''Cannot delete your own account'', ''User deleted successfully'',
     ''Failed to delete user'']"

definition opt_list :: "'a option \<Rightarrow> 'a list" where
  "opt_list v = (case v of None \<Rightarrow> [] | Some x \<Rightarrow> [x])"

text \<open>
  The strings of the server state that are not password hashes: name, email and role of
  the stored users, the session user of the client, and the time stamps and entry ids of
  the feeds.
\<close>

definition public_strings :: "server \<Rightarrow> nat \<Rightarrow> string list" where
  "public_strings sv c =
     concat (map (\<lambda>u. [name u, email u, role u]) (users sv))
     @ (case sessions sv c of None \<Rightarrow> [] | Some su \<Rightarrow> [sname su, semail su, srole su])
     @ concat (map (\<lambda>f. opt_list (created_at f) @ opt_list (entry_id f)) (feeds sv))"

text \<open>The role invariant of the data model.\<close>

definition valid_roles :: "user list \<Rightarrow> bool" where
  "valid_roles us = list_all (\<lambda>u. role u = ''user'' \<or> role u = ''admin'') us"

text \<open>Twenty-five feeds, told apart by their entry ids \<open>a\<close> to \<open>y\<close>.\<close>

definition demo_feed :: "char \<Rightarrow> feed" where
  "demo_feed ch = \<lparr>created_at = Some ''2024-01-01'', entry_id = Some [ch], field1 = Some ''21.5'',
     field2 = Some ''n/a'', field3 = None\<rparr>"

definition demo_feeds :: "feed list" where
  "demo_feeds = map demo_feed ''abcdefghijklmnopqrstuvwxy''"

subsection \<open>Numeric strings\<close>















section \<open>Properties\<close>

subsection \<open>Responses\<close>

lemma status_fail [simp]: "status (fail c m) = c"
  by (simp add: fail_def)

lemma status_ok [simp]: "status (ok v) = 200"
  by (simp add: ok_def)

lemma payload_fail [simp]: "payload (fail c m) = JObj [(''error'', JStr m)]"
  by (simp add: fail_def)

lemma payload_ok [simp]: "payload (ok v) = v"
  by (simp add: ok_def)

subsection \<open>Registration\<close>

lemma register_success:
  "register ev b us = (r, us') \<Longrightarrow> status r = 200 \<Longrightarrow>
     \<exists>h. bcrypt_hash ev (str (b_password b)) = Some h \<and>
         us' = us @ [\<lparr>name = str (b_name b), email = str (b_email b), password = h,
                       role = ''user''\<rparr>]"
  by (auto simp: register_def split: if_splits option.splits)

lemma register_ignores_role: "register ev (b\<lparr>b_role := x\<rparr>) us = register ev b us"
  by (simp add: register_def split: option.splits)

lemma add_user_success:
  "add_user ev b us = (r, us') \<Longrightarrow> status r = 200 \<Longrightarrow>
     \<exists>h. bcrypt_hash ev (str (b_password b)) = Some h \<and>
         us' = us @ [\<lparr>name = str (b_name b), email = str (b_email b), password = h,
                       role = (if truthy (b_role b) then str (b_role b) else ''user'')\<rparr>]"
  by (auto simp: add_user_def split: if_splits option.splits)

text \<open>
  Claim C10. A successful POST /api/register appends a record whose role is \<open>user\<close>, and
  the role field of the request body has no influence on the response or on the new
  store: the same request with any other role field (or none) has the same outcome. The
  admin route POST /api/users/add, in contrast, stores a non-empty role of the body.
\<close>

theorem register_role_is_user:
  assumes "app ev c (PostRegister b) sv = (r, sv')" and "status r = 200"
  shows "(\<exists>h. users sv' = users sv @
            [\<lparr>name = str (b_name b), email = str (b_email b), password = h, role = ''user''\<rparr>])
       \<and> app ev c (PostRegister (b\<lparr>b_role := x\<rparr>)) sv = (r, sv')
       \<and> (\<forall>r2 us2. add_user ev b (users sv) = (r2, us2) \<and> status r2 = 200 \<and> truthy (b_role b)
             \<longrightarrow> role (last us2) = str (b_role b))"
proof -
  obtain us' where reg: "register ev b (users sv) = (r, us')" and sv': "sv' = sv\<lparr>users := us'\<rparr>"
    using assms(1) by (auto split: prod.splits)
  from register_success [OF reg assms(2)] sv'
  have "\<exists>h. users sv' = users sv @
      [\<lparr>name = str (b_name b), email = str (b_email b), password = h, role = ''user''\<rparr>]"
    by auto
  moreover have "app ev c (PostRegister (b\<lparr>b_role := x\<rparr>)) sv = (r, sv')"
    using reg sv' by (simp add: register_ignores_role)
  moreover have "\<forall>r2 us2. add_user ev b (users sv) = (r2, us2) \<and> status r2 = 200 \<and> truthy (b_role b)
             \<longrightarrow> role (last us2) = str (b_role b)"
    using add_user_success by fastforce
  ultimately show ?thesis by blast
qed

theorem register_role_is_user_witness:
  "status (fst (app demo_env 0 (PostRegister demo_body) demo_server)) = 200
   \<and> map role (users (snd (app demo_env 0 (PostRegister demo_body) demo_server)))
       = [''admin'', ''user'']
   \<and> map role (snd (add_user demo_env demo_body (users demo_server))) = [''admin'', ''admin'']"
  using register_role_is_user [of demo_env 0 demo_body demo_server
        "fst (app demo_env 0 (PostRegister demo_body) demo_server)"
        "snd (app demo_env 0 (PostRegister demo_body) demo_server)"]
  by (auto simp: register_def add_user_def demo_env_def demo_server_def demo_admin_def
        demo_body_def truthy_def str_def)





subsection \<open>Login\<close>

lemma login_401:
  "status (fst (login ev b s us)) = 401 \<Longrightarrow>
     fst (login ev b s us) = fail 401 ''Invalid email or password''"
  by (auto simp: login_def split: if_splits option.splits)

lemma app_login_401:
  "status (fst (app ev c (PostLogin b) sv)) = 401 \<Longrightarrow>
     fst (app ev c (PostLogin b) sv) = fail 401 ''Invalid email or password''"
  using login_401 [of ev b "sessions sv c" "users sv"]
  by (cases "login ev b (sessions sv c) (users sv)") auto

text \<open>
  Claim C3. A login that fails because no record has the email and a login that fails
  because bcrypt finds the password not to match get the same response, status 401 with
  the body \<open>{error: 'Invalid email or password'}\<close>, and neither changes the server
  state; more generally every response of POST /api/login with status 401 is this one.
\<close>

theorem login_failures_indistinguishable:
  assumes "truthy (b_email b)" and "truthy (b_password b)"
    and "truthy (b_email b')" and "truthy (b_password b')"
    and "find (\<lambda>u. email u = str (b_email b)) (users sv) = None"
    and "find (\<lambda>u. email u = str (b_email b')) (users sv') = Some u"
    and "bcrypt_compare ev' (str (b_password b')) (password u) = Some False"
  shows "fst (app ev c (PostLogin b) sv) = fail 401 ''Invalid email or password''
       \<and> fst (app ev' c' (PostLogin b') sv') = fail 401 ''Invalid email or password''
       \<and> fst (app ev c (PostLogin b) sv) = fst (app ev' c' (PostLogin b') sv')
       \<and> snd (app ev c (PostLogin b) sv) = sv \<and> snd (app ev' c' (PostLogin b') sv') = sv'
       \<and> (\<forall>ev2 c2 b2 sv2. status (fst (app ev2 c2 (PostLogin b2) sv2)) = 401
            \<longrightarrow> fst (app ev2 c2 (PostLogin b2) sv2) = fail 401 ''Invalid email or password'')"
proof -
  have "\<forall>ev2 c2 b2 sv2. status (fst (app ev2 c2 (PostLogin b2) sv2)) = 401
            \<longrightarrow> fst (app ev2 c2 (PostLogin b2) sv2) = fail 401 ''Invalid email or password''"
    using app_login_401 by blast
  then show ?thesis using assms by (simp add: login_def)
qed

theorem login_failures_indistinguishable_witness:
  "fst (app demo_env 0 (PostLogin (demo_body\<lparr>b_email := Some ''nobody@example.com''\<rparr>)) demo_server)
   = fst (app demo_env 0 (PostLogin (demo_body\<lparr>b_email := Some ''admin@example.com''\<rparr>)) demo_server)
   \<and> status (fst (app demo_env 0 (PostLogin (demo_body\<lparr>b_email := Some ''nobody@example.com''\<rparr>))
        demo_server)) = 401"
  using login_failures_indistinguishable [where b = "demo_body\<lparr>b_email := Some ''nobody@example.com''\<rparr>"
      and b' = "demo_body\<lparr>b_email := Some ''admin@example.com''\<rparr>" and sv = demo_server
      and sv' = demo_server and u = demo_admin and ev = demo_env and ev' = demo_env
      and c = 0 and c' = 0]
  by (simp add: demo_server_def demo_admin_def demo_body_def demo_env_def truthy_def str_def)

subsection \<open>Access control\<close>

lemma session_gate:
  "run_middleware [isAuthenticated] sess =
     (case sess of None \<Rightarrow> Some (fail 401 ''Not authenticated'') | Some su \<Rightarrow> None)"
  by (simp add: isAuthenticated_def split: option.splits)

lemma admin_gate_none:
  "run_middleware [isAuthenticated, isAdmin] None = Some (fail 401 ''Not authenticated'')"
  by (simp add: isAuthenticated_def)

lemma admin_gate_some:
  "run_middleware [isAuthenticated, isAdmin] (Some su) =
     (if srole su = ''admin'' then None else Some (fail 403 ''Admin privileges required''))"
  by (simp add: isAuthenticated_def isAdmin_def)

lemmas gates = session_gate admin_gate_none admin_gate_some

declare run_middleware.simps [simp del]
declare gates [simp]

lemma delete_user_self:
  "semail su = e \<Longrightarrow>
     delete_user ev (Some su) e us = (fail 400 ''Cannot delete your own account'', us)"
  by (simp add: delete_user_def)

text \<open>
  Claim C6, amended. A DELETE /api/users/:email by a client whose session user has that
  email never changes the server state, whether or not the store has a record with the
  email. The response is 400 when the session role is \<open>admin\<close>; for any other session
  role the admin gate answers 403 before the handler runs.
\<close>

theorem self_delete_guard:
  assumes "sessions sv c = Some su" and "semail su = e"
  shows "snd (app ev c (DeleteUser e) sv) = sv
       \<and> (srole su = ''admin'' \<longrightarrow>
            fst (app ev c (DeleteUser e) sv) = fail 400 ''Cannot delete your own account'')
       \<and> (srole su \<noteq> ''admin'' \<longrightarrow>
            fst (app ev c (DeleteUser e) sv) = fail 403 ''Admin privileges required'')"
  using assms by (simp add: delete_user_self)

theorem self_delete_guard_witness:
  "sessions demo_server 1 =
     Some \<lparr>sname = ''Admin User'', semail = ''admin@example.com'', srole = ''admin''\<rparr>
   \<and> app demo_env 1 (DeleteUser ''admin@example.com'') demo_server
       = (fail 400 ''Cannot delete your own account'', demo_server)
   \<and> app demo_env 1 (DeleteUser ''admin@example.com'') (demo_server\<lparr>users := []\<rparr>)
       = (fail 400 ''Cannot delete your own account'', demo_server\<lparr>users := []\<rparr>)"
  using self_delete_guard [where sv = demo_server and c = 1 and e = "''admin@example.com''"
      and ev = demo_env
      and su = "\<lparr>sname = ''Admin User'', semail = ''admin@example.com'', srole = ''admin''\<rparr>"]
    self_delete_guard [where sv = "demo_server\<lparr>users := []\<rparr>" and c = 1
      and e = "''admin@example.com''" and ev = demo_env
      and su = "\<lparr>sname = ''Admin User'', semail = ''admin@example.com'', srole = ''admin''\<rparr>"]
  by (simp add: demo_server_def prod_eq_iff)

text \<open>
  Claim C6 as stated fails for a session whose role is not \<open>admin\<close>: the logged-in plain
  user of the demo server gets 403, not 400, when deleting the own email.
\<close>

theorem self_delete_guard_counterexample:
  "\<not> (\<forall>ev c sv su. sessions sv c = Some su
        \<longrightarrow> status (fst (app ev c (DeleteUser (semail su)) sv)) = 400
            \<and> snd (app ev c (DeleteUser (semail su)) sv) = sv)"
proof
  assume h: "\<forall>ev c sv su. sessions sv c = Some su
        \<longrightarrow> status (fst (app ev c (DeleteUser (semail su)) sv)) = 400
            \<and> snd (app ev c (DeleteUser (semail su)) sv) = sv"
  have s: "sessions demo_server 2 =
      Some \<lparr>sname = ''Bob'', semail = ''bob@example.com'', srole = ''user''\<rparr>"
    by (simp add: demo_server_def)
  have "status (fst (app demo_env 2 (DeleteUser ''bob@example.com'') demo_server)) = 403"
    by (simp add: s)
  moreover have "status (fst (app demo_env 2 (DeleteUser ''bob@example.com'') demo_server)) = 400"
    using h [rule_format, OF s, of demo_env] by simp
  ultimately show False by simp
qed

lemma handlers_status:
  "status (get_users us) = 200"
  "status (fst (add_user ev b us)) \<in> {200, 400, 500}"
  "status (fst (update_role ev e b us)) \<in> {200, 400, 404, 500}"
  "status (fst (delete_user ev (Some su) e us)) \<in> {200, 400, 404, 500}"
  by (auto simp: get_users_def add_user_def update_role_def delete_user_def Let_def
        split: option.splits)

lemma admin_route_passes:
  assumes "admin_route r" and "sessions sv c = Some su" and "srole su = ''admin''"
  shows "status (fst (app ev c r sv)) \<in> {200, 400, 404, 500}"
proof (cases r)
  case GetUsers
  then show ?thesis using assms by (simp add: handlers_status)
next
  case (PostUsersAdd b)
  then show ?thesis using assms handlers_status(2) [of ev b "users sv"]
    by (auto split: prod.splits)
next
  case (PutUser e b)
  then show ?thesis using assms handlers_status(3) [of ev e b "users sv"]
    by (auto split: prod.splits)
next
  case (DeleteUser e)
  then show ?thesis using assms handlers_status(4) [of ev su e "users sv"]
    by (auto split: prod.splits)
qed (use assms in simp_all)

lemma admin_route_sessions:
  "admin_route r \<Longrightarrow> sessions (snd (app ev c r sv)) = sessions sv"
  by (cases r) (auto split: option.splits prod.splits)

text \<open>
  Claim C7. On every admin route a request without a session user is answered 401 and a
  request whose session role is not \<open>admin\<close> is answered 403, both without touching the
  server state. A request whose session role is \<open>admin\<close> passes both gates whatever the
  users store holds (the status is then one of the handlers' own), and no admin route,
  the role update included, changes any session: the gates read the session only.
\<close>

theorem admin_gates:
  assumes "admin_route r"
  shows "(sessions sv c = None \<longrightarrow> app ev c r sv = (fail 401 ''Not authenticated'', sv))
       \<and> (\<forall>su. sessions sv c = Some su \<and> srole su \<noteq> ''admin''
             \<longrightarrow> app ev c r sv = (fail 403 ''Admin privileges required'', sv))
       \<and> (\<forall>su us. sessions sv c = Some su \<and> srole su = ''admin''
             \<longrightarrow> status (fst (app ev c r (sv\<lparr>users := us\<rparr>))) \<in> {200, 400, 404, 500})
       \<and> sessions (snd (app ev c r sv)) = sessions sv"
proof -
  have 1: "sessions sv c = None \<longrightarrow> app ev c r sv = (fail 401 ''Not authenticated'', sv)"
    using assms by (cases r) auto
  have 2: "\<forall>su. sessions sv c = Some su \<and> srole su \<noteq> ''admin''
             \<longrightarrow> app ev c r sv = (fail 403 ''Admin privileges required'', sv)"
    using assms by (cases r) auto
  have 3: "\<forall>su us. sessions sv c = Some su \<and> srole su = ''admin''
             \<longrightarrow> status (fst (app ev c r (sv\<lparr>users := us\<rparr>))) \<in> {200, 400, 404, 500}"
    using admin_route_passes [OF assms, of "sv\<lparr>users := us\<rparr>" c for us] by simp
  show ?thesis using 1 2 3 admin_route_sessions [OF assms] by blast
qed

theorem admin_gates_witness:
  "admin_route GetUsers
   \<and> app demo_env 0 GetUsers demo_server = (fail 401 ''Not authenticated'', demo_server)
   \<and> app demo_env 2 GetUsers demo_server = (fail 403 ''Admin privileges required'', demo_server)
   \<and> map role (users (snd (app demo_env 2 (PutUser ''admin@example.com''
          (demo_body\<lparr>b_role := Some ''user''\<rparr>)) demo_server))) = [''admin'']
   \<and> map role (users (snd (app demo_env 1 (PutUser ''admin@example.com''
          (demo_body\<lparr>b_role := Some ''user''\<rparr>)) demo_server))) = [''user'']
   \<and> status (fst (app demo_env 1 GetUsers (snd (app demo_env 1 (PutUser ''admin@example.com''
          (demo_body\<lparr>b_role := Some ''user''\<rparr>)) demo_server)))) = 200"
  using admin_gates [where r = GetUsers and sv = demo_server and c = 0 and ev = demo_env]
    admin_gates [where r = GetUsers and sv = demo_server and c = 2 and ev = demo_env]
  by (simp add: demo_server_def demo_admin_def demo_body_def demo_env_def update_role_def
        get_users_def truthy_def str_def)

subsection \<open>Projections of the router\<close>

lemma fst_app:
  "fst (app ev c (PostRegister b) sv) = fst (register ev b (users sv))"
  "fst (app ev c (PostLogin b) sv) = fst (login ev b (sessions sv c) (users sv))"
  "fst (app ev c GetLogout sv) = fst (logout ev (sessions sv c))"
  "fst (app ev c GetCheckAuth sv) = check_auth (sessions sv c)"
  "fst (app ev c GetSensors sv) =
     (case sessions sv c of None \<Rightarrow> fail 401 ''Not authenticated''
      | Some su \<Rightarrow> get_sensors (feeds sv))"
  "fst (app ev c GetUsers sv) =
     (case sessions sv c of None \<Rightarrow> fail 401 ''Not authenticated''
      | Some su \<Rightarrow> if srole su = ''admin'' then get_users (users sv)
                   else fail 403 ''Admin privileges required'')"
  "fst (app ev c (PostUsersAdd b) sv) =
     (case sessions sv c of None \<Rightarrow> fail 401 ''Not authenticated''
      | Some su \<Rightarrow> if srole su = ''admin'' then fst (add_user ev b (users sv))
                   else fail 403 ''Admin privileges required'')"
  "fst (app ev c (PutUser e b) sv) =
     (case sessions sv c of None \<Rightarrow> fail 401 ''Not authenticated''
      | Some su \<Rightarrow> if srole su = ''admin'' then fst (update_role ev e b (users sv))
                   else fail 403 ''Admin privileges required'')"
  "fst (app ev c (DeleteUser e) sv) =
     (case sessions sv c of None \<Rightarrow> fail 401 ''Not authenticated''
      | Some su \<Rightarrow> if srole su = ''admin'' then fst (delete_user ev (sessions sv c) e (users sv))
                   else fail 403 ''Admin privileges required'')"
  by (simp_all split: prod.splits option.splits)

lemma users_app:
  "users (snd (app ev c (PostRegister b) sv)) = snd (register ev b (users sv))"
  "users (snd (app ev c (PostLogin b) sv)) = users sv"
  "users (snd (app ev c GetLogout sv)) = users sv"
  "users (snd (app ev c GetCheckAuth sv)) = users sv"
  "users (snd (app ev c GetSensors sv)) = users sv"
  "users (snd (app ev c GetUsers sv)) = users sv"
  "users (snd (app ev c (PostUsersAdd b) sv)) =
     (case sessions sv c of None \<Rightarrow> users sv
      | Some su \<Rightarrow> if srole su = ''admin'' then snd (add_user ev b (users sv)) else users sv)"
  "users (snd (app ev c (PutUser e b) sv)) =
     (case sessions sv c of None \<Rightarrow> users sv
      | Some su \<Rightarrow> if srole su = ''admin'' then snd (update_role ev e b (users sv)) else users sv)"
  "users (snd (app ev c (DeleteUser e) sv)) =
     (case sessions sv c of None \<Rightarrow> users sv
      | Some su \<Rightarrow> if srole su = ''admin'' then snd (delete_user ev (sessions sv c) e (users sv))
                   else users sv)"
  by (simp_all split: prod.splits option.splits)

declare app.simps [simp del]

subsection \<open>What a response can contain\<close>

lemma keys_fail [simp]: "json_keys (payload (fail c m)) = [''error'']"
  by simp

lemma keys_message [simp]: "json_keys (message m) = [''message'']"
  by (simp add: message_def)

lemma keys_user_json [simp]: "json_keys (user_json n e r) = [''name'', ''email'', ''role'']"
  by (simp add: user_json_def)

lemma keys_opt_json [simp]: "json_keys (opt_json v) = []"
  by (simp add: opt_json_def split: option.splits)

lemma keys_reading [simp]:
  "json_keys (reading_json r) = [''timestamp'', ''entry_id'', ''field1'', ''field2'', ''field3'']"
  by (simp add: reading_json_def)

lemma keys_latest [simp]:
  "json_keys (latest_json r) = [''field1'', ''field2'', ''field3'', ''timestamp'']"
  by (simp add: latest_json_def)

lemma keys_register: "set (json_keys (payload (fst (register ev b us)))) \<subseteq> set response_keys"
  by (auto simp: register_def response_keys_def split: option.splits)

lemma keys_login: "set (json_keys (payload (fst (login ev b s us)))) \<subseteq> set response_keys"
  by (auto simp: login_def response_keys_def split: option.splits)

lemma keys_logout: "set (json_keys (payload (fst (logout ev s)))) \<subseteq> set response_keys"
  by (auto simp: logout_def response_keys_def)

lemma keys_check_auth: "set (json_keys (payload (check_auth s))) \<subseteq> set response_keys"
  by (auto simp: check_auth_def response_keys_def split: option.splits)

lemma keys_get_users: "set (json_keys (payload (get_users us))) \<subseteq> set response_keys"
  by (auto simp: get_users_def response_keys_def)

lemma keys_add_user: "set (json_keys (payload (fst (add_user ev b us)))) \<subseteq> set response_keys"
  by (auto simp: add_user_def response_keys_def split: option.splits)

lemma keys_update_role: "set (json_keys (payload (fst (update_role ev e b us)))) \<subseteq> set response_keys"
  by (auto simp: update_role_def response_keys_def split: option.splits)

lemma keys_delete_user: "set (json_keys (payload (fst (delete_user ev s e us)))) \<subseteq> set response_keys"
  by (auto simp: delete_user_def response_keys_def Let_def split: option.splits)

lemma keys_get_sensors: "set (json_keys (payload (get_sensors fs))) \<subseteq> set response_keys"
  by (auto simp: get_sensors_def response_keys_def Let_def)

lemmas handler_keys = keys_register keys_login keys_logout keys_check_auth keys_get_users
  keys_add_user keys_update_role keys_delete_user keys_get_sensors

lemma keys_fail_sub: "''error'' \<in> set response_keys"
  by (simp add: response_keys_def)

lemma keys_app: "set (json_keys (payload (fst (app ev c r sv)))) \<subseteq> set response_keys"
  by (cases r) (simp_all add: fst_app handler_keys keys_fail_sub split: option.splits)

lemma strings_fail: "set (json_strings (payload (fail c m))) = {m}"
  by simp

lemma strings_message [simp]: "json_strings (message m) = [m]"
  by (simp add: message_def)

lemma strings_user_json [simp]: "json_strings (user_json n e r) = [n, e, r]"
  by (simp add: user_json_def)

lemma strings_register:
  "set (json_strings (payload (fst (register ev b us)))) \<subseteq> set server_messages"
  by (auto simp: register_def server_messages_def split: option.splits)

lemma strings_add_user:
  "set (json_strings (payload (fst (add_user ev b us)))) \<subseteq> set server_messages"
  by (auto simp: add_user_def server_messages_def split: option.splits)

lemma strings_update_role:
  "set (json_strings (payload (fst (update_role ev e b us)))) \<subseteq> set server_messages"
  by (auto simp: update_role_def server_messages_def split: option.splits)

lemma strings_delete_user:
  "set (json_strings (payload (fst (delete_user ev s e us)))) \<subseteq> set server_messages"
  by (auto simp: delete_user_def server_messages_def Let_def split: option.splits)

lemma strings_logout:
  "set (json_strings (payload (fst (logout ev s)))) \<subseteq> set server_messages"
  by (auto simp: logout_def server_messages_def)

lemma strings_login:
  "set (json_strings (payload (fst (login ev b s us))))
     \<subseteq> set server_messages \<union> set (concat (map (\<lambda>u. [name u, email u, role u]) us))"
proof (cases "find (\<lambda>u. email u = str (b_email b)) us")
  case None
  then show ?thesis by (auto simp: login_def server_messages_def)
next
  case (Some u)
  then have "u \<in> set us" by (auto simp: find_Some_iff)
  moreover have "''Login successful'' \<in> set server_messages"
    by (simp add: server_messages_def)
  ultimately show ?thesis using Some
    by (auto simp: login_def split: option.splits) (simp_all add: server_messages_def)
qed

lemma strings_check_auth:
  "json_strings (payload (check_auth s)) =
     (case s of None \<Rightarrow> [] | Some su \<Rightarrow> [sname su, semail su, srole su])"
  by (simp add: check_auth_def split: option.splits)

lemma strings_get_users:
  "json_strings (payload (get_users us)) = concat (map (\<lambda>u. [name u, email u, role u]) us)"
  by (simp add: get_users_def comp_def)

lemma strings_opt_json [simp]: "json_strings (opt_json v) = opt_list v"
  by (simp add: opt_json_def opt_list_def split: option.splits)

lemma strings_reading:
  "json_strings (reading_json (processFeed f)) = opt_list (created_at f) @ opt_list (entry_id f)"
  by (simp add: reading_json_def processFeed_def)

lemma strings_latest:
  "json_strings (latest_json (processFeed f)) = opt_list (created_at f)"
  by (simp add: latest_json_def processFeed_def)

lemma strings_readings:
  "set rs \<subseteq> set (map processFeed fs) \<Longrightarrow>
     set (concat (map (json_strings \<circ> reading_json) rs))
       \<subseteq> set (concat (map (\<lambda>f. opt_list (created_at f) @ opt_list (entry_id f)) fs))"
  using strings_reading by fastforce

lemma slice_last_subset: "set (slice_last n xs) \<subseteq> set xs"
  by (simp add: slice_last_def set_drop_subset)

lemma strings_get_sensors:
  "set (json_strings (payload (get_sensors fs)))
     \<subseteq> set (concat (map (\<lambda>f. opt_list (created_at f) @ opt_list (entry_id f)) fs))"
proof (cases fs rule: rev_cases)
  case Nil
  then show ?thesis by (simp add: get_sensors_def)
next
  case (snoc fs' f)
  have h: "set (concat (map (json_strings \<circ> reading_json) (slice_last n (map processFeed fs))))
       \<subseteq> set (concat (map (\<lambda>f. opt_list (created_at f) @ opt_list (entry_id f)) fs))" for n
    by (rule strings_readings) (rule slice_last_subset)
  have l: "set (json_strings (latest_json (processFeed f)))
       \<subseteq> set (concat (map (\<lambda>f. opt_list (created_at f) @ opt_list (entry_id f)) fs))"
    using snoc by (auto simp: strings_latest)
  have "json_strings (payload (get_sensors fs)) =
      json_strings (latest_json (processFeed f))
      @ concat (map (json_strings \<circ> reading_json) (slice_last 20 (map processFeed fs)))
      @ concat (map (json_strings \<circ> reading_json) (rev (slice_last 10 (map processFeed fs))))"
    using snoc by (simp add: get_sensors_def Let_def nth_append)
  then show ?thesis using h [of 20] h [of 10] l
    by (simp add: rev_map [symmetric] del: set_concat) (auto simp: rev_map)
qed

lemma strings_app:
  "set (json_strings (payload (fst (app ev c r sv))))
     \<subseteq> set server_messages \<union> set (public_strings sv c)"
proof -
  have m: "''Not authenticated'' \<in> set server_messages"
    "''Admin privileges required'' \<in> set server_messages"
    by (simp_all add: server_messages_def)
  show ?thesis
  proof (cases r)
    case (PostRegister b)
    then show ?thesis using strings_register [of ev b "users sv"] by (auto simp: fst_app)
  next
    case (PostLogin b)
    then show ?thesis using strings_login [of ev b "sessions sv c" "users sv"]
      by (auto simp: fst_app public_strings_def)
  next
    case GetLogout
    then show ?thesis using strings_logout [of ev "sessions sv c"] by (auto simp: fst_app)
  next
    case GetCheckAuth
    then show ?thesis
      by (auto simp: fst_app strings_check_auth public_strings_def split: option.splits)
  next
    case GetSensors
    then show ?thesis using strings_get_sensors [of "feeds sv"] m
      by (auto simp: fst_app public_strings_def split: option.splits)
  next
    case GetUsers
    then show ?thesis using m
      by (auto simp: fst_app strings_get_users public_strings_def split: option.splits)
  next
    case (PostUsersAdd b)
    then show ?thesis using strings_add_user [of ev b "users sv"] m
      by (auto simp: fst_app split: option.splits)
  next
    case (PutUser e b)
    then show ?thesis using strings_update_role [of ev e b "users sv"] m
      by (auto simp: fst_app split: option.splits)
  next
    case (DeleteUser e)
    then show ?thesis using strings_delete_user [of ev "sessions sv c" e "users sv"] m
      by (auto simp: fst_app split: option.splits)
  qed
qed

subsection \<open>What a request stores\<close>

lemma stored_register:
  "u \<in> set (snd (register ev b us)) \<Longrightarrow>
     u \<in> set us \<or> bcrypt_hash ev (str (b_password b)) = Some (password u)"
  by (auto simp: register_def split: if_splits option.splits)

lemma stored_add_user:
  "u \<in> set (snd (add_user ev b us)) \<Longrightarrow>
     u \<in> set us \<or> bcrypt_hash ev (str (b_password b)) = Some (password u)"
  by (auto simp: add_user_def split: if_splits option.splits)

lemma findIndex_less: "findIndex P xs = Some i \<Longrightarrow> i < length xs"
  by (induction xs arbitrary: i) (auto split: if_splits)

lemma stored_update_role:
  "u \<in> set (snd (update_role ev e b us)) \<Longrightarrow> password u \<in> password ` set us"
proof -
  assume h: "u \<in> set (snd (update_role ev e b us))"
  show ?thesis
  proof (cases "u \<in> set us")
    case True
    then show ?thesis by blast
  next
    case False
    with h obtain i where i: "findIndex (\<lambda>u. email u = e) us = Some i"
      and u: "u \<in> set (us[i := (us ! i)\<lparr>role := str (b_role b)\<rparr>])"
      by (auto simp: update_role_def split: if_splits option.splits)
    from u False have "u = (us ! i)\<lparr>role := str (b_role b)\<rparr>"
      using set_update_subset_insert by fastforce
    then show ?thesis using findIndex_less [OF i] by (auto intro!: image_eqI [where x = "us ! i"])
  qed
qed

lemma stored_delete_user: "u \<in> set (snd (delete_user ev s e us)) \<Longrightarrow> u \<in> set us"
  by (auto simp: delete_user_def Let_def split: if_splits option.splits)

lemma stored_app:
  assumes "u \<in> set (users (snd (app ev c r sv)))"
  shows "password u \<in> password ` set (users sv)
       \<or> (\<exists>b. (r = PostRegister b \<or> r = PostUsersAdd b)
              \<and> bcrypt_hash ev (str (b_password b)) = Some (password u))"
proof (cases r)
  case (PostRegister b)
  then show ?thesis using assms stored_register [of u ev b "users sv"]
    by (auto simp: users_app)
next
  case (PostUsersAdd b)
  then show ?thesis using assms stored_add_user [of u ev b "users sv"]
    by (auto simp: users_app split: option.splits if_splits)
next
  case (PutUser e b)
  then show ?thesis using assms stored_update_role [of u ev e b "users sv"]
    by (auto simp: users_app split: option.splits if_splits)
next
  case (DeleteUser e)
  then show ?thesis using assms stored_delete_user [of u ev "sessions sv c" e "users sv"]
    by (auto simp: users_app split: option.splits if_splits)
qed (use assms in \<open>auto simp: users_app\<close>)

lemma stored_bootstrap:
  "u \<in> set (bootstrap ev us) \<Longrightarrow>
     u \<in> set us \<or> bcrypt_hash ev ''admin123'' = Some (password u)"
  by (auto simp: bootstrap_def split: if_splits option.splits)

text \<open>
  Claim C9. For an administrator's session GET /api/users answers with one object per
  stored record, holding exactly the properties name, email and role of the record. No
  response of any route has a property named password or passwordHash at any depth, and
  every string in a response is a fixed message or one of the name, email, role, session
  and feed strings of the server state, so neither a submitted password nor a stored hash
  is returned. What a request stores in the password column is the value bcrypt returned
  for the submitted password (at the start of the server, for the seeded administrator's
  password); the password column of existing records is never changed.
\<close>

theorem passwords_never_serialised:
  assumes "sessions sv c = Some su" and "srole su = ''admin''"
  shows "fst (app ev c GetUsers sv) =
           ok (JObj [(''users'', JArr (map (\<lambda>u. JObj [(''name'', JStr (name u)),
                 (''email'', JStr (email u)), (''role'', JStr (role u))]) (users sv)))])
       \<and> (\<forall>ev2 c2 r sv2. ''password'' \<notin> set (json_keys (payload (fst (app ev2 c2 r sv2))))
              \<and> ''passwordHash'' \<notin> set (json_keys (payload (fst (app ev2 c2 r sv2)))))
       \<and> (\<forall>ev2 c2 r sv2. set (json_strings (payload (fst (app ev2 c2 r sv2))))
              \<subseteq> set server_messages \<union> set (public_strings sv2 c2))
       \<and> (\<forall>ev2 c2 r sv2 u. u \<in> set (users (snd (app ev2 c2 r sv2)))
              \<longrightarrow> password u \<in> password ` set (users sv2)
                \<or> (\<exists>b. (r = PostRegister b \<or> r = PostUsersAdd b)
                       \<and> bcrypt_hash ev2 (str (b_password b)) = Some (password u)))
       \<and> (\<forall>ev2 us u. u \<in> set (bootstrap ev2 us)
              \<longrightarrow> u \<in> set us \<or> bcrypt_hash ev2 ''admin123'' = Some (password u))"
proof -
  have a: "fst (app ev c GetUsers sv) =
           ok (JObj [(''users'', JArr (map (\<lambda>u. JObj [(''name'', JStr (name u)),
                 (''email'', JStr (email u)), (''role'', JStr (role u))]) (users sv)))])"
    using assms by (simp add: fst_app get_users_def user_json_def)
  have k: "''password'' \<notin> set response_keys" "''passwordHash'' \<notin> set response_keys"
    by (simp_all add: response_keys_def)
  have b: "\<forall>ev2 c2 r sv2. ''password'' \<notin> set (json_keys (payload (fst (app ev2 c2 r sv2))))
              \<and> ''passwordHash'' \<notin> set (json_keys (payload (fst (app ev2 c2 r sv2))))"
    using k keys_app by blast
  have c: "\<forall>ev2 c2 r sv2 u. u \<in> set (users (snd (app ev2 c2 r sv2)))
              \<longrightarrow> password u \<in> password ` set (users sv2)
                \<or> (\<exists>b. (r = PostRegister b \<or> r = PostUsersAdd b)
                       \<and> bcrypt_hash ev2 (str (b_password b)) = Some (password u))"
    using stored_app by blast
  have d: "\<forall>ev2 us u. u \<in> set (bootstrap ev2 us)
              \<longrightarrow> u \<in> set us \<or> bcrypt_hash ev2 ''admin123'' = Some (password u)"
    using stored_bootstrap by blast
  show ?thesis using a b c d strings_app by blast
qed

theorem passwords_never_serialised_witness:
  "payload (fst (app demo_env 1 GetUsers demo_server)) =
      JObj [(''users'', JArr [JObj [(''name'', JStr ''Admin User''),
         (''email'', JStr ''admin@example.com''), (''role'', JStr ''admin'')]])]
   \<and> map password (users (snd (app demo_env 0 (PostRegister demo_body) demo_server)))
       = [''$2b$10$admin123'', ''$2b$10$abcdef'']
   \<and> bootstrap demo_env [] = [demo_admin]"
  using passwords_never_serialised [where sv = demo_server and c = 1 and ev = demo_env
      and su = "\<lparr>sname = ''Admin User'', semail = ''admin@example.com'', srole = ''admin''\<rparr>"]
  by (simp add: demo_server_def demo_admin_def demo_body_def demo_env_def users_app register_def
        bootstrap_def truthy_def str_def)

subsection \<open>Roles\<close>

lemma roles_register: "valid_roles us \<Longrightarrow> valid_roles (snd (register ev b us))"
  by (auto simp: register_def valid_roles_def split: option.splits)

lemma roles_update_role: "valid_roles us \<Longrightarrow> valid_roles (snd (update_role ev e b us))"
  by (auto simp: update_role_def valid_roles_def list_all_iff split: option.splits
      dest!: set_update_subset_insert [THEN subsetD] dest: findIndex_less)

lemma roles_delete_user: "valid_roles us \<Longrightarrow> valid_roles (snd (delete_user ev s e us))"
  by (auto simp: delete_user_def valid_roles_def list_all_iff Let_def split: option.splits)

lemma roles_add_user:
  "valid_roles us \<Longrightarrow> \<not> truthy (b_role b) \<or> str (b_role b) \<in> set [''user'', ''admin''] \<Longrightarrow>
     valid_roles (snd (add_user ev b us))"
  by (auto simp: add_user_def valid_roles_def split: option.splits)

lemma roles_bootstrap: "valid_roles us \<Longrightarrow> valid_roles (bootstrap ev us)"
  by (auto simp: bootstrap_def valid_roles_def split: option.splits)

lemma roles_app:
  assumes "valid_roles (users sv)"
    and "\<And>b. r = PostUsersAdd b \<Longrightarrow>
           \<not> truthy (b_role b) \<or> str (b_role b) \<in> set [''user'', ''admin'']"
  shows "valid_roles (users (snd (app ev c r sv)))"
  using assms
  by (cases r)
    (auto simp: users_app roles_register roles_update_role roles_delete_user roles_add_user
      split: option.splits)

text \<open>
  Claim C1 does not hold for POST /api/users/add, which stores any non-empty role of the
  request body unchecked: an administrator adding a user with role \<open>superuser\<close> gets
  status 200 and the store then holds a record with that role. (Registration, the role
  update, which checks the role against \<open>user\<close> and \<open>admin\<close>, and deletion keep the
  invariant, as \<open>roles_app\<close> shows.)
\<close>

theorem add_user_stores_any_role:
  "app demo_env 1 (PostUsersAdd \<lparr>b_name = Some ''Eve'', b_email = Some ''eve@example.com'',
        b_password = Some ''secret1'', b_role = Some ''superuser''\<rparr>) demo_server
   = (ok (message ''User added successfully''),
      demo_server\<lparr>users := [demo_admin,
        \<lparr>name = ''Eve'', email = ''eve@example.com'', password = ''$2b$10$secret1'',
         role = ''superuser''\<rparr>]\<rparr>)"
  by (simp add: app.simps add_user_def demo_server_def demo_admin_def demo_env_def truthy_def str_def)

subsection \<open>Sensor views\<close>

lemma slice_last_map: "slice_last n (map f xs) = map f (slice_last n xs)"
  by (simp add: slice_last_def drop_map)

lemma length_slice_last: "length (slice_last n xs) = min n (length xs)"
  by (auto simp: slice_last_def)

lemma slice_last_nth:
  "i < min n (length xs) \<Longrightarrow> slice_last n xs ! i = xs ! (length xs - min n (length xs) + i)"
  by (auto simp: slice_last_def min_def)

lemma rev_slice_last_nth:
  assumes "i < min n (length xs)"
  shows "rev (slice_last n xs) ! i = xs ! (length xs - 1 - i)"
proof -
  let ?m = "min n (length xs)"
  have j: "?m - Suc i < ?m" using assms by arith
  have "rev (slice_last n xs) ! i = slice_last n xs ! (?m - Suc i)"
    using assms by (simp add: rev_nth length_slice_last)
  also have "\<dots> = xs ! (length xs - ?m + (?m - Suc i))"
    using j by (rule slice_last_nth)
  also have "length xs - ?m + (?m - Suc i) = length xs - 1 - i"
    using assms by arith
  finally show ?thesis .
qed

text \<open>
  Claim C4, amended. For a request with a session user and a non-empty feeds store,
  GET /api/sensors returns as history the last 20 readings (all of them when there are
  fewer) in arrival order, as recent the last 10 readings in reverse arrival order, and
  as latest the field1, field2, field3 and timestamp of the most recent reading, without
  its entry_id; for an empty store it returns an empty latest object and empty history
  and recent. The request changes nothing.
\<close>

theorem sensor_views:
  assumes "sessions sv c = Some su"
  shows "(feeds sv \<noteq> [] \<longrightarrow>
            fst (app ev c GetSensors sv) =
              ok (JObj [(''latest'', latest_json (processFeed (last (feeds sv)))),
                        (''history'', JArr (map (reading_json \<circ> processFeed)
                            (slice_last 20 (feeds sv)))),
                        (''recent'', JArr (map (reading_json \<circ> processFeed)
                            (rev (slice_last 10 (feeds sv)))))]))
       \<and> (feeds sv = [] \<longrightarrow>
            fst (app ev c GetSensors sv) =
              ok (JObj [(''latest'', JObj []), (''history'', JArr []), (''recent'', JArr [])]))
       \<and> snd (app ev c GetSensors sv) = sv
       \<and> length (slice_last 20 (feeds sv)) = min 20 (length (feeds sv))
       \<and> length (slice_last 10 (feeds sv)) = min 10 (length (feeds sv))
       \<and> (\<forall>i < min 20 (length (feeds sv)).
             slice_last 20 (feeds sv) ! i = feeds sv ! (length (feeds sv) - min 20 (length (feeds sv)) + i))
       \<and> (\<forall>i < min 10 (length (feeds sv)).
             rev (slice_last 10 (feeds sv)) ! i = feeds sv ! (length (feeds sv) - 1 - i))"
proof -
  have 1: "feeds sv \<noteq> [] \<longrightarrow>
            fst (app ev c GetSensors sv) =
              ok (JObj [(''latest'', latest_json (processFeed (last (feeds sv)))),
                        (''history'', JArr (map (reading_json \<circ> processFeed)
                            (slice_last 20 (feeds sv)))),
                        (''recent'', JArr (map (reading_json \<circ> processFeed)
                            (rev (slice_last 10 (feeds sv)))))])"
    using assms
    by (simp add: fst_app get_sensors_def Let_def slice_last_map rev_map last_conv_nth)
  have 2: "feeds sv = [] \<longrightarrow>
            fst (app ev c GetSensors sv) =
              ok (JObj [(''latest'', JObj []), (''history'', JArr []), (''recent'', JArr [])])"
    using assms by (simp add: fst_app get_sensors_def)
  have 3: "snd (app ev c GetSensors sv) = sv"
    using assms by (simp add: app.simps)
  have 4: "length (slice_last 20 (feeds sv)) = min 20 (length (feeds sv))"
    "length (slice_last 10 (feeds sv)) = min 10 (length (feeds sv))"
    by (simp_all add: length_slice_last)
  have 5: "\<forall>i < min 20 (length (feeds sv)).
             slice_last 20 (feeds sv) ! i = feeds sv ! (length (feeds sv) - min 20 (length (feeds sv)) + i)"
    by (simp add: slice_last_nth)
  have 6: "\<forall>i < min 10 (length (feeds sv)).
             rev (slice_last 10 (feeds sv)) ! i = feeds sv ! (length (feeds sv) - 1 - i)"
    by (simp add: rev_slice_last_nth)
  show ?thesis using 1 2 3 4 5 6 by blast
qed

theorem sensor_views_witness:
  "length demo_feeds = 25
   \<and> fst (app demo_env 1 GetSensors (demo_server\<lparr>feeds := demo_feeds\<rparr>)) =
      ok (JObj [(''latest'', latest_json (processFeed (demo_feed CHR ''y''))),
                (''history'', JArr (map (reading_json \<circ> processFeed \<circ> demo_feed)
                    ''fghijklmnopqrstuvwxy'')),
                (''recent'', JArr (map (reading_json \<circ> processFeed \<circ> demo_feed)
                    ''yxwvutsrqp''))])
   \<and> fst (app demo_env 1 GetSensors demo_server) =
      ok (JObj [(''latest'', JObj []), (''history'', JArr []), (''recent'', JArr [])])"
  using sensor_views [where sv = "demo_server\<lparr>feeds := demo_feeds\<rparr>" and c = 1 and ev = demo_env
      and su = "\<lparr>sname = ''Admin User'', semail = ''admin@example.com'', srole = ''admin''\<rparr>"]
    sensor_views [where sv = demo_server and c = 1 and ev = demo_env
      and su = "\<lparr>sname = ''Admin User'', semail = ''admin@example.com'', srole = ''admin''\<rparr>"]
  by (simp add: demo_server_def demo_feeds_def slice_last_def)

text \<open>
  Claim C4 as stated fails in its third part: latest is not the most recent reading as
  history and recent show it, because it has no entry_id.
\<close>

theorem sensor_views_counterexample:
  "\<not> (\<forall>ev c sv su. sessions sv c = Some su \<and> feeds sv \<noteq> []
        \<longrightarrow> json_get ''latest'' (payload (fst (app ev c GetSensors sv)))
            = reading_json (processFeed (last (feeds sv))))"
proof
  assume h: "\<forall>ev c sv su. sessions sv c = Some su \<and> feeds sv \<noteq> []
        \<longrightarrow> json_get ''latest'' (payload (fst (app ev c GetSensors sv)))
            = reading_json (processFeed (last (feeds sv)))"
  let ?sv = "demo_server\<lparr>feeds := [demo_feed CHR ''a'']\<rparr>"
  have s: "sessions ?sv 1 =
      Some \<lparr>sname = ''Admin User'', semail = ''admin@example.com'', srole = ''admin''\<rparr>"
    by (simp add: demo_server_def)
  have "json_get ''latest'' (payload (fst (app demo_env 1 GetSensors ?sv)))
      = latest_json (processFeed (demo_feed CHR ''a''))"
    by (simp add: fst_app demo_server_def get_sensors_def json_get_def Let_def)
  moreover have "json_get ''latest'' (payload (fst (app demo_env 1 GetSensors ?sv)))
      = reading_json (processFeed (demo_feed CHR ''a''))"
    using h [rule_format, of ?sv 1 _ demo_env] s by simp
  ultimately show False
    by (simp add: latest_json_def reading_json_def)
qed

subsection \<open>Numeric coercion of the sensor fields\<close>













lemma digits_takeWhile [simp]: "list_all isDigit (takeWhile isDigit xs)"
  by (auto simp: list_all_iff dest: set_takeWhileD)

lemma digitsValue_Nil [simp]: "digitsValue [] = 0"
  by (simp add: digitsValue_def)











lemma dropWhile_digits_append:
  "list_all isDigit ds \<Longrightarrow> dropWhile isDigit (ds @ rest) = dropWhile isDigit rest"
  by (simp add: list_all_iff dropWhile_append)





lemma orZero_Fin [simp]: "orZero (Fin q) = Fin q"
  by (simp add: orZero_def)




end
